theory Spec2Isabelle
  imports Main "HOL-Library.Sublist"
begin

section \<open>Strings and formatting\<close>

text \<open>
  A Go string is a sequence of bytes, and so is a HOL \<open>string\<close>: the glyphs that open the
  report lines are written as their UTF-8 bytes.

  \<open>Join\<close> is \<^verbatim>\<open>strings.Join(elems, sep)\<close>; \<open>itoa\<close> is what the verb \<^verbatim>\<open>%d\<close> of
  \<^verbatim>\<open>fmt.Sprintf\<close> prints for an \<^verbatim>\<open>int\<close>.
\<close>

fun Join :: "string list \<Rightarrow> string \<Rightarrow> string" where
  "Join [] sep = []"
| "Join [x] sep = x"
| "Join (x # y # ys) sep = x @ sep @ Join (y # ys) sep"

fun natStr :: "nat \<Rightarrow> string" where
  "natStr n =
     (if n < 10 then [''0123456789'' ! n]
      else natStr (n div 10) @ [''0123456789'' ! (n mod 10)])"

declare natStr.simps [simp del]

definition itoa :: "int \<Rightarrow> string" where
  "itoa i = (if i < 0 then ''-'' @ natStr (nat (- i)) else natStr (nat i))"

definition glyphWarning :: string where
  "glyphWarning = [CHR 0xE2, CHR 0x9A, CHR 0xA0]"

definition glyphMoneyWings :: string where
  "glyphMoneyWings = [CHR 0xF0, CHR 0x9F, CHR 0x92, CHR 0xB8]"

definition glyphSunglasses :: string where
  "glyphSunglasses = [CHR 0xF0, CHR 0x9F, CHR 0x98, CHR 0x8E]"

definition glyphHourglass :: string where
  "glyphHourglass = [CHR 0xE2, CHR 0x8F, CHR 0xB3]"

definition glyphMoneyBag :: string where
  "glyphMoneyBag = [CHR 0xF0, CHR 0x9F, CHR 0x92, CHR 0xB0]"

definition glyphDarkSunglasses :: string where
  "glyphDarkSunglasses = [CHR 0xF0, CHR 0x9F, CHR 0x95, CHR 0xB6]"

definition newline :: string where
  "newline = [CHR 0x0A]"


section \<open>The calendar of package \<^verbatim>\<open>time\<close>\<close>

text \<open>
  \<^verbatim>\<open>ToDate\<close>, \<^verbatim>\<open>WithDueDate\<close> and \<^verbatim>\<open>DiffFromNowInDays\<close> call \<^verbatim>\<open>time.Date\<close>,
  \<^verbatim>\<open>Time.Year\<close>, \<^verbatim>\<open>Time.Month\<close>, \<^verbatim>\<open>Time.Day\<close>, \<^verbatim>\<open>Time.In\<close>, \<^verbatim>\<open>Time.Sub\<close> and
  \<^verbatim>\<open>Duration.Hours\<close> of the Go standard library. This section models the part of the library
  those calls run through.

  An instant is counted in seconds since January 1 of year 1, 00:00:00 UTC (the library's
  internal epoch, the value of \<^verbatim>\<open>t.sec()\<close>), and days are counted from the same date. The
  library itself counts from an "absolute" epoch that lies a whole number of 400-year cycles
  earlier, so that its unsigned arithmetic never sees a negative number; with the flooring
  \<open>div\<close> of HOL the cycle arithmetic below gives the same civil dates.
\<close>

definition daysBefore :: "int list" where
  "daysBefore = [0, 31, 59, 90, 120, 151, 181, 212, 243, 273, 304, 334, 365]"

definition isLeap :: "int \<Rightarrow> bool" where
  "isLeap year = (year mod 4 = 0 \<and> (year mod 100 \<noteq> 0 \<or> year mod 400 = 0))"

text \<open>The number of days from the epoch to the start of \<open>year\<close>, cycle by cycle.\<close>

definition daysSinceEpoch :: "int \<Rightarrow> int" where
  "daysSinceEpoch year =
     (let y0 = year - 1;
          n400 = y0 div 400; y1 = y0 - 400 * n400;
          n100 = y1 div 100; y2 = y1 - 100 * n100;
          n4 = y2 div 4; y3 = y2 - 4 * n4
      in 146097 * n400 + 36524 * n100 + 1461 * n4 + 365 * y3)"

text \<open>
  \<open>absDate\<close> turns a day number into year, month and day of the month: 400-year, 100-year
  and 4-year cycles are cut off in turn (\<open>n - n div 4\<close> is the library's \<^verbatim>\<open>n -= n >> 2\<close>, which
  keeps the last day of a cycle in the cycle), then the month is estimated as if every month
  had 31 days and corrected by at most one.
\<close>

definition monthDay :: "int \<Rightarrow> int \<Rightarrow> int \<times> int" where
  "monthDay year yday =
     (if isLeap year \<and> yday = 31 + 29 - 1 then (2, 29)
      else
        let day = (if isLeap year \<and> yday > 31 + 29 - 1 then yday - 1 else yday);
            month = day div 31;
            stop = daysBefore ! nat (month + 1)
        in if day \<ge> stop then (month + 2, day - stop + 1)
           else (month + 1, day - daysBefore ! nat month + 1))"

definition absDate :: "int \<Rightarrow> int \<times> int \<times> int" where
  "absDate days =
     (let n400 = days div 146097; d1 = days - 146097 * n400;
          c100 = d1 div 36524; n100 = c100 - c100 div 4; d2 = d1 - 36524 * n100;
          n4 = d2 div 1461; d3 = d2 - 1461 * n4;
          c1 = d3 div 365; n1 = c1 - c1 div 4; yday = d3 - 365 * n1;
          year = 400 * n400 + 100 * n100 + 4 * n4 + n1 + 1
      in (year, monthDay year yday))"

definition daysIn :: "int \<Rightarrow> int \<Rightarrow> int" where
  "daysIn month year =
     (if month = 2 \<and> isLeap year then 29
      else daysBefore ! nat month - daysBefore ! nat (month - 1))"


subsection \<open>The location Europe/Athens\<close>

text \<open>
  \<^verbatim>\<open>GreekTimeZone\<close> loads the location \<^verbatim>\<open>Europe/Athens\<close> once and returns the same pointer
  from then on; the program exits if the location cannot be loaded, so every function below
  runs with it. A \<^verbatim>\<open>Time\<close> of the program carries either that pointer or none (which means
  UTC: \<^verbatim>\<open>time.Parse\<close> of a date without a zone, and the zero \<^verbatim>\<open>Time\<close>). The local location
  of \<^verbatim>\<open>time.Now()\<close> is replaced by \<^verbatim>\<open>In(GreekTimeZone())\<close> before any field of the time is
  read, so it is not modelled.

  \<open>athensLookup\<close> is \<^verbatim>\<open>Location.lookup\<close> for this location: the offset from UTC in force
  at an instant and the bounds of the period during which it is in force. The time-zone
  database describes Europe/Athens by a table of transitions and, for the time after the
  table, by the rule \<^verbatim>\<open>EET-2EEST,M3.5.0/3,M10.5.0/4\<close>: UTC+2, and UTC+3 from 01:00 UTC on
  the last Sunday of March to 01:00 UTC on the last Sunday of October. The rule describes
  every transition since March 1996; \<open>athensTransitions\<close> holds the transitions before that
  (instant in seconds since the epoch, offset from then on), and before the first of them
  local mean time (1:34:52 ahead of UTC) is in force, from the smallest instant the library
  knows.
\<close>

datatype Location = UTC | Athens

definition athensTransitions :: "(int \<times> int) list" where
  "athensTransitions =
     [(59790954308, 5692), (60449495168, 7200), (60952600800, 10800),
      (60957435600, 7200), (61228735200, 10800), (61230718800, 7200),
      (61278339600, 3600), (61291119600, 7200), (61307359200, 3600),
      (61323174000, 7200), (61583234400, 10800), (61593944400, 7200),
      (62302082400, 10800), (62321781600, 7200), (62333625600, 10800),
      (62349350400, 7200), (62364470400, 10800), (62379676800, 7200),
      (62395920000, 10800), (62411043600, 7200), (62427394800, 10800),
      (62443004400, 7200), (62458984800, 10800), (62474533200, 7200),
      (62490272400, 10800), (62505997200, 7200), (62521722000, 10800),
      (62537446800, 7200), (62553171600, 10800), (62568896400, 7200),
      (62584621200, 10800), (62600950800, 7200), (62616675600, 10800),
      (62632400400, 7200), (62648125200, 10800), (62663850000, 7200),
      (62679574800, 10800), (62695299600, 7200), (62711024400, 10800),
      (62726749200, 7200), (62742474000, 10800), (62758198800, 7200),
      (62773923600, 10800), (62790253200, 7200), (62805978000, 10800),
      (62821702800, 7200), (62837427600, 10800), (62853152400, 7200),
      (62868877200, 10800), (62884602000, 7200), (62900326800, 10800),
      (62916051600, 7200), (62931776400, 10800), (62947501200, 7200)]"

definition alpha :: int where
  "alpha = - (2 ^ 63) + 62135596800"

fun lookupTransitions :: "(int \<times> int) list \<Rightarrow> int \<Rightarrow> int \<Rightarrow> int \<Rightarrow> int \<Rightarrow> int \<times> int \<times> int" where
  "lookupTransitions [] offset zstart zlimit s = (offset, zstart, zlimit)"
| "lookupTransitions ((w, off) # tx) offset zstart zlimit s =
     (if s < w then (offset, zstart, w) else lookupTransitions tx off w zlimit s)"

text \<open>Day 0 (January 1 of year 1) is a Monday; Sunday is weekday 0.\<close>

definition lastSunday :: "int \<Rightarrow> int \<Rightarrow> int" where
  "lastSunday year month =
     (let d = daysSinceEpoch year + daysBefore ! nat (month - 1)
              + (if isLeap year \<and> month \<ge> 3 then 1 else 0) + 30;
          wd = (d + 1) mod 7
      in d - wd)"

definition dstStart :: "int \<Rightarrow> int" where
  "dstStart year = lastSunday year 3 * 86400 + 3600"

definition dstEnd :: "int \<Rightarrow> int" where
  "dstEnd year = lastSunday year 10 * 86400 + 3600"

definition athensRule :: "int \<Rightarrow> int \<times> int \<times> int" where
  "athensRule s =
     (let year = fst (absDate (s div 86400))
      in if s < dstStart year then (7200, dstEnd (year - 1), dstStart year)
         else if s < dstEnd year then (10800, dstStart year, dstEnd year)
         else (7200, dstEnd year, dstStart (year + 1)))"

definition athensLookup :: "int \<Rightarrow> int \<times> int \<times> int" where
  "athensLookup s =
     (if s < dstStart 1996
      then lookupTransitions athensTransitions 5692 alpha (dstStart 1996) s
      else athensRule s)"

text \<open>
  The transitions of the database from 1996 to 2037, where its table ends: the starts and
  the ends of summer time, against which the rule is checked below.
\<close>

definition summerTimeStarts :: "int list" where
  "summerTimeStarts =
     [62963830800, 62995280400, 63026730000, 63058179600, 63089629200,
      63121078800, 63153133200, 63184582800, 63216032400, 63247482000,
      63278931600, 63310381200, 63342435600, 63373885200, 63405334800,
      63436784400, 63468234000, 63500288400, 63531738000, 63563187600,
      63594637200, 63626086800, 63657536400, 63689590800, 63721040400,
      63752490000, 63783939600, 63815389200, 63847443600, 63878893200,
      63910342800, 63941792400, 63973242000, 64004691600, 64036746000,
      64068195600, 64099645200, 64131094800, 64162544400, 64193994000,
      64226048400, 64257498000]"

definition summerTimeEnds :: "int list" where
  "summerTimeEnds =
     [62981974800, 63013424400, 63044874000, 63076928400, 63108378000,
      63139827600, 63171277200, 63202726800, 63234781200, 63266230800,
      63297680400, 63329130000, 63360579600, 63392029200, 63424083600,
      63455533200, 63486982800, 63518432400, 63549882000, 63581331600,
      63613386000, 63644835600, 63676285200, 63707734800, 63739184400,
      63771238800, 63802688400, 63834138000, 63865587600, 63897037200,
      63928486800, 63960541200, 63991990800, 64023440400, 64054890000,
      64086339600, 64118394000, 64149843600, 64181293200, 64212742800,
      64244192400, 64275642000]"


subsection \<open>Times and durations\<close>

text \<open>
  A \<^verbatim>\<open>time.Time\<close> is the instant (\<open>sec\<close>, \<open>nsec\<close>) and the location pointer. None of the times
  the program subtracts carries a monotonic clock reading: \<^verbatim>\<open>time.Date\<close> builds both operands
  of \<^verbatim>\<open>Sub\<close>. Two times are equal under Go's \<^verbatim>\<open>==\<close> when all three fields are.
  A \<^verbatim>\<open>Duration\<close> is a signed 64-bit count of nanoseconds.
\<close>

record Time =
  sec :: int
  nsec :: int
  loc :: Location

type_synonym Duration = int

definition zeroTime :: Time where
  "zeroTime = \<lparr>sec = 0, nsec = 0, loc = UTC\<rparr>"

definition minDuration :: Duration where
  "minDuration = - (2 ^ 63)"

definition maxDuration :: Duration where
  "maxDuration = 2 ^ 63 - 1"

definition wrap64 :: "int \<Rightarrow> int" where
  "wrap64 x = (x + 2 ^ 63) mod 2 ^ 64 - 2 ^ 63"

text \<open>Go's \<^verbatim>\<open>/\<close> and \<^verbatim>\<open>%\<close> on integers truncate toward zero.\<close>

definition tdiv :: "int \<Rightarrow> int \<Rightarrow> int" where
  "tdiv a b = (if a < 0 then - ((- a) div b) else a div b)"

definition tmod :: "int \<Rightarrow> int \<Rightarrow> int" where
  "tmod a b = a - b * tdiv a b"

definition In :: "Time \<Rightarrow> Location \<Rightarrow> Time" where
  "In t l = t\<lparr>loc := l\<rparr>"

definition zoneOffset :: "Time \<Rightarrow> int" where
  "zoneOffset t = (case loc t of UTC \<Rightarrow> 0 | Athens \<Rightarrow> fst (athensLookup (sec t)))"

definition date :: "Time \<Rightarrow> int \<times> int \<times> int" where
  "date t = absDate ((sec t + zoneOffset t) div 86400)"

definition Year :: "Time \<Rightarrow> int" where
  "Year t = fst (date t)"

definition Month :: "Time \<Rightarrow> int" where
  "Month t = fst (snd (date t))"

definition Day :: "Time \<Rightarrow> int" where
  "Day t = snd (snd (date t))"

text \<open>
  \<open>Date year month day l\<close> is \<^verbatim>\<open>time.Date(year, month, day, 0, 0, 0, 0, l)\<close>: the program
  and \<^verbatim>\<open>time.Parse\<close> with the layout \<^verbatim>\<open>time.DateOnly\<close> pass no time of day. The library
  looks the offset up at the civil time read as UTC, and once more at the corrected instant
  when that falls outside the period the first lookup found.
\<close>

definition Date :: "int \<Rightarrow> int \<Rightarrow> int \<Rightarrow> Location \<Rightarrow> Time" where
  "Date year month day l =
     (let m0 = month - 1;
          year' = year + m0 div 12;
          m = m0 mod 12;
          d = daysSinceEpoch year' + daysBefore ! nat m
              + (if isLeap year' \<and> m + 1 \<ge> 3 then 1 else 0) + (day - 1);
          unix = d * 86400
      in case l of
           UTC \<Rightarrow> \<lparr>sec = unix, nsec = 0, loc = UTC\<rparr>
         | Athens \<Rightarrow>
             (case athensLookup unix of
                (offset, zstart, zstop) \<Rightarrow>
                  if offset \<noteq> 0 then
                    let utc = unix - offset;
                        offset' = (if utc < zstart \<or> utc \<ge> zstop
                                   then fst (athensLookup utc) else offset)
                    in \<lparr>sec = unix - offset', nsec = 0, loc = Athens\<rparr>
                  else \<lparr>sec = unix, nsec = 0, loc = Athens\<rparr>))"

definition Equal :: "Time \<Rightarrow> Time \<Rightarrow> bool" where
  "Equal t u = (sec t = sec u \<and> nsec t = nsec u)"

definition Before :: "Time \<Rightarrow> Time \<Rightarrow> bool" where
  "Before t u = (sec t < sec u \<or> (sec t = sec u \<and> nsec t < nsec u))"

definition Add :: "Time \<Rightarrow> Duration \<Rightarrow> Time" where
  "Add t d =
     (let dsec = tdiv d 1000000000;
          ns = nsec t + tmod d 1000000000
      in if ns \<ge> 1000000000 then t\<lparr>sec := sec t + (dsec + 1), nsec := ns - 1000000000\<rparr>
         else if ns < 0 then t\<lparr>sec := sec t + (dsec - 1), nsec := ns + 1000000000\<rparr>
         else t\<lparr>sec := sec t + dsec, nsec := ns\<rparr>)"

text \<open>
  \<^verbatim>\<open>t.Sub(u)\<close> computes the difference in 64-bit arithmetic, checks it by adding it back, and
  saturates at the smallest or largest \<^verbatim>\<open>Duration\<close> when it overflowed.
\<close>

definition Sub :: "Time \<Rightarrow> Time \<Rightarrow> Duration" where
  "Sub t u =
     (let d = wrap64 ((sec t - sec u) * 1000000000 + (nsec t - nsec u))
      in if Equal (Add u d) t then d
         else if Before t u then minDuration
         else maxDuration)"

text \<open>
  \<open>daysOfDuration d\<close> is \<^verbatim>\<open>int(d.Hours() / 24)\<close>. \<^verbatim>\<open>Hours\<close> returns a \<^verbatim>\<open>float64\<close>, the
  division is a \<^verbatim>\<open>float64\<close> division and the conversion to \<^verbatim>\<open>int\<close> drops the fraction
  (it rounds toward zero). The model computes the quotient exactly. That agrees with the
  floating-point result for every duration the program can form: those are whole numbers of
  seconds (both operands of \<^verbatim>\<open>Sub\<close> have \<open>nsec = 0\<close>) or one of the two saturation values,
  below \<open>2^63\<close> nanoseconds in size; a quotient that is not a whole number then lies at least
  \<open>1/86400\<close> from the next whole number, and three roundings with a relative error of \<open>2^-53\<close>
  each move a value of size below \<open>106752\<close> by less than \<open>10^-10\<close>; a whole number of days is
  computed without any rounding.
\<close>

definition daysOfDuration :: "Duration \<Rightarrow> int" where
  "daysOfDuration d = tdiv d (24 * 3600 * 1000000000)"


section \<open>Payments\<close>

definition GreekTimeZone :: Location where
  "GreekTimeZone = Athens"

definition ToDate :: "Time \<Rightarrow> Time" where
  "ToDate t = Date (Year t) (Month t) (Day t) GreekTimeZone"

record Payment =
  description :: string
  due :: Time

definition NewPayment :: "string \<Rightarrow> Payment" where
  "NewPayment d = \<lparr>description = d, due = zeroTime\<rparr>"

definition WithDueDate :: "Payment \<Rightarrow> Time \<Rightarrow> Payment" where
  "WithDueDate p t = p\<lparr>due := ToDate (In t GreekTimeZone)\<rparr>"

definition IsDue :: "Payment \<Rightarrow> bool" where
  "IsDue p = (due p \<noteq> zeroTime)"

definition DiffFromNowInDays :: "Payment \<Rightarrow> Time \<Rightarrow> int" where
  "DiffFromNowInDays p now =
     (let now' = ToDate (In now GreekTimeZone)
      in daysOfDuration (Sub (due p) now'))"


section \<open>The classifier\<close>

text \<open>
  Each loop of the source appends to a slice; the model carries the slice as an accumulator.
\<close>

fun findAtLoop :: "Payment list \<Rightarrow> int \<Rightarrow> Time \<Rightarrow> Payment list \<Rightarrow> Payment list" where
  "findAtLoop [] diff now found = found"
| "findAtLoop (p # ps) diff now found =
     (if \<not> IsDue p then findAtLoop ps diff now found
      else if DiffFromNowInDays p now = diff then findAtLoop ps diff now (found @ [p])
      else findAtLoop ps diff now found)"

definition FindPaymentsAt :: "Payment list \<Rightarrow> int \<Rightarrow> Time \<Rightarrow> Payment list" where
  "FindPaymentsAt payments diff now = findAtLoop payments diff now []"

fun findUntilLoop :: "Payment list \<Rightarrow> int \<Rightarrow> Time \<Rightarrow> Payment list \<Rightarrow> Payment list" where
  "findUntilLoop [] maxDiff now delayed = delayed"
| "findUntilLoop (p # ps) maxDiff now delayed =
     (if \<not> IsDue p then findUntilLoop ps maxDiff now delayed
      else if DiffFromNowInDays p now \<le> maxDiff then findUntilLoop ps maxDiff now (delayed @ [p])
      else findUntilLoop ps maxDiff now delayed)"

definition FindPaymentsUntil :: "Payment list \<Rightarrow> int \<Rightarrow> Time \<Rightarrow> Payment list" where
  "FindPaymentsUntil payments maxDiff now = findUntilLoop payments maxDiff now []"


section \<open>The report\<close>

text \<open>
  The summaries read the wall clock themselves. \<^verbatim>\<open>SummarizeDelayedPayments\<close> and
  \<^verbatim>\<open>SummarizePaymentsForToday\<close> call \<^verbatim>\<open>time.Now()\<close> once; \<^verbatim>\<open>SummarizePaymentsComingUp\<close>
  calls it once for every payment that has a due date and \<^verbatim>\<open>SummarizeTotalPayments\<close> once for
  every payment. A \<open>Clock\<close> gives the reading of the \<open>k\<close>-th call of a run, and every function
  that reads the clock takes the number of readings made so far and returns the new number.
\<close>

type_synonym Clock = "nat \<Rightarrow> Time"

definition SummarizeDelayedPayments :: "Clock \<Rightarrow> nat \<Rightarrow> Payment list \<Rightarrow> string \<times> nat" where
  "SummarizeDelayedPayments clock k payments =
     (let delayed = FindPaymentsUntil payments (- 1) (clock k)
      in (if length delayed > 0
          then (glyphWarning @ '' Delayed: '') @ Join (map description delayed) '', ''
          else [],
          Suc k))"

definition SummarizePaymentsForToday :: "Clock \<Rightarrow> nat \<Rightarrow> Payment list \<Rightarrow> string \<times> nat" where
  "SummarizePaymentsForToday clock k payments =
     (let scheduled = FindPaymentsAt payments 0 (clock k)
      in (if length scheduled > 0
          then (glyphMoneyWings @ '' Today: '') @ Join (map description scheduled) '', ''
          else glyphSunglasses @ '' Nothing for today'',
          Suc k))"

text \<open>The first loop of \<^verbatim>\<open>SummarizePaymentsComingUp\<close>: the spec's \<^verbatim>\<open>findComingUp\<close>.\<close>

fun comingUpLoop ::
  "Clock \<Rightarrow> nat \<Rightarrow> Payment list \<Rightarrow> int \<Rightarrow> Payment list \<Rightarrow> Payment list \<times> nat" where
  "comingUpLoop clock k [] timeWindowInDays comingUp = (comingUp, k)"
| "comingUpLoop clock k (p # ps) timeWindowInDays comingUp =
     (if \<not> IsDue p then comingUpLoop clock k ps timeWindowInDays comingUp
      else
        let d = DiffFromNowInDays p (clock k)
        in if d \<ge> 1 \<and> d \<le> timeWindowInDays
           then comingUpLoop clock (Suc k) ps timeWindowInDays (comingUp @ [p])
           else comingUpLoop clock (Suc k) ps timeWindowInDays comingUp)"

definition SummarizePaymentsComingUp ::
  "Clock \<Rightarrow> nat \<Rightarrow> Payment list \<Rightarrow> int \<Rightarrow> string \<times> nat" where
  "SummarizePaymentsComingUp clock k payments timeWindowInDays =
     (case comingUpLoop clock k payments timeWindowInDays [] of
        (comingUp, k') \<Rightarrow>
          (if length comingUp > 0
           then (glyphHourglass @ '' Coming Up (next '' @ itoa timeWindowInDays @ '' days): '')
                @ Join (map description comingUp) '', ''
           else glyphSunglasses @ '' Nothing coming up (next '' @ itoa timeWindowInDays
                @ '' days)'',
           k'))"

text \<open>The loop of \<^verbatim>\<open>SummarizeTotalPayments\<close>: the spec's \<^verbatim>\<open>countPendingWithin\<close>.\<close>

fun totalLoop :: "Clock \<Rightarrow> nat \<Rightarrow> Payment list \<Rightarrow> int \<Rightarrow> int \<Rightarrow> int \<times> nat" where
  "totalLoop clock k [] timeWindowInDays n = (n, k)"
| "totalLoop clock k (p # ps) timeWindowInDays n =
     (if DiffFromNowInDays p (clock k) \<le> timeWindowInDays
      then totalLoop clock (Suc k) ps timeWindowInDays (n + 1)
      else totalLoop clock (Suc k) ps timeWindowInDays n)"

definition SummarizeTotalPayments ::
  "Clock \<Rightarrow> nat \<Rightarrow> Payment list \<Rightarrow> int \<Rightarrow> string \<times> nat" where
  "SummarizeTotalPayments clock k payments timeWindowInDays =
     (case totalLoop clock k payments timeWindowInDays 0 of
        (n, k') \<Rightarrow>
          (glyphMoneyBag @ '' Total '' @ itoa n @ '' payments pending during the next ''
           @ itoa timeWindowInDays @ '' days'',
           k'))"

text \<open>
  The block of \<^verbatim>\<open>run\<close> that formulates the report, in two steps: \<open>collectSections\<close> gathers
  the summaries that are not empty, \<open>formatReport\<close> puts the fixed line in when there is none
  and joins the sections. (Fetching the sheets and sending the notification are input and
  output around this block.)
\<close>

definition nothingToReport :: string where
  "nothingToReport = glyphDarkSunglasses @ ''  Nothing to report''"

definition collectSections :: "Clock \<Rightarrow> Payment list \<Rightarrow> string list" where
  "collectSections clock payments =
     (let sections = [];
          (summary, k) = SummarizeDelayedPayments clock 0 payments;
          sections = (if summary \<noteq> [] then sections @ [summary] else sections);
          (summary, k) = SummarizePaymentsForToday clock k payments;
          sections = (if summary \<noteq> [] then sections @ [summary] else sections);
          (summary, k) = SummarizePaymentsComingUp clock k payments 2;
          sections = (if summary \<noteq> [] then sections @ [summary] else sections);
          (summary, k) = SummarizeTotalPayments clock k payments 30;
          sections = (if summary \<noteq> [] then sections @ [summary] else sections)
      in sections)"

definition formatReport :: "string list \<Rightarrow> string" where
  "formatReport sections =
     Join (if length sections = 0 then sections @ [nothingToReport] else sections) newline"

definition report :: "Clock \<Rightarrow> Payment list \<Rightarrow> string" where
  "report clock payments = formatReport (collectSections clock payments)"


section \<open>Ingestion\<close>

text \<open>
  A cell of a fetched sheet is an \<^verbatim>\<open>interface{}\<close> value; the program asserts it to be a string
  (\<^verbatim>\<open>v.(string)\<close>) and panics on any other value. Panics and error returns are values of
  \<open>Error\<close>; the errors about a short row carry the column and the index of the row among the
  data rows, as the messages of the source do.
\<close>

datatype Cell = Str string | NonString

datatype Error =
    IndexOutOfRange
  | NotAString
  | DescriptionLabelNotFound
  | PaymentDateNotFound
  | CannotReadDescription int int
  | CannotReadDueDate int int
  | CannotReadPaymentDate int int
  | FailedToParseDueDate string

subsection \<open>\<^verbatim>\<open>time.Parse(time.DateOnly, value)\<close>\<close>

text \<open>
  The layout \<^verbatim>\<open>2006-01-02\<close> asks for four digits, a dash, two digits, a dash and two digits,
  with nothing after them; the month has to lie between 1 and 12 and the day in the month.
  The result is a midnight in UTC.
\<close>

definition isDigit :: "char \<Rightarrow> bool" where
  "isDigit c = (48 \<le> (of_char c :: nat) \<and> (of_char c :: nat) \<le> 57)"

definition digitVal :: "char \<Rightarrow> int" where
  "digitVal c = of_char c - 48"

definition longYear :: "string \<Rightarrow> (int \<times> string) option" where
  "longYear s =
     (case s of
        c1 # c2 # c3 # c4 # rest \<Rightarrow>
          if isDigit c1 \<and> isDigit c2 \<and> isDigit c3 \<and> isDigit c4
          then Some (digitVal c1 * 1000 + digitVal c2 * 100 + digitVal c3 * 10 + digitVal c4, rest)
          else None
      | _ \<Rightarrow> None)"

definition getnum2 :: "string \<Rightarrow> (int \<times> string) option" where
  "getnum2 s =
     (case s of
        c1 # c2 # rest \<Rightarrow>
          if isDigit c1 \<and> isDigit c2 then Some (digitVal c1 * 10 + digitVal c2, rest) else None
      | _ \<Rightarrow> None)"

definition skipDash :: "string \<Rightarrow> string option" where
  "skipDash s = (case s of c # rest \<Rightarrow> if c = CHR ''-'' then Some rest else None | [] \<Rightarrow> None)"

definition ParseDateOnly :: "string \<Rightarrow> Time option" where
  "ParseDateOnly v =
     (case longYear v of None \<Rightarrow> None | Some (year, v1) \<Rightarrow>
     (case skipDash v1 of None \<Rightarrow> None | Some v2 \<Rightarrow>
     (case getnum2 v2 of None \<Rightarrow> None | Some (month, v3) \<Rightarrow>
        if month \<le> 0 \<or> 12 < month then None else
     (case skipDash v3 of None \<Rightarrow> None | Some v4 \<Rightarrow>
     (case getnum2 v4 of None \<Rightarrow> None | Some (day, v5) \<Rightarrow>
        if v5 \<noteq> [] then None
        else if day < 1 \<or> day > daysIn month year then None
        else Some (Date year month day UTC))))))"

subsection \<open>\<^verbatim>\<open>readPayments\<close>\<close>

text \<open>\<open>cellString row i\<close> is \<^verbatim>\<open>row[i].(string)\<close>.\<close>

definition cellString :: "Cell list \<Rightarrow> int \<Rightarrow> Error + string" where
  "cellString row i =
     (if i < 0 \<or> i \<ge> int (length row) then Inl IndexOutOfRange
      else case row ! nat i of Str s \<Rightarrow> Inr s | NonString \<Rightarrow> Inl NotAString)"

text \<open>The loop over the header row; a later cell with the same label wins.\<close>

fun scanHeader :: "Cell list \<Rightarrow> int \<Rightarrow> int \<times> int \<times> int \<Rightarrow> Error + int \<times> int \<times> int" where
  "scanHeader [] idx ixs = Inr ixs"
| "scanHeader (v # vs) idx (descriptionIndex, dueDateIndex, paymentDateIndex) =
     (case v of
        NonString \<Rightarrow> Inl NotAString
      | Str val \<Rightarrow>
          scanHeader vs (idx + 1)
            (if val = ''Description'' then idx else descriptionIndex,
             if val = ''Due Date'' then idx else dueDateIndex,
             if val = ''Payment Date'' then idx else paymentDateIndex))"

text \<open>
  One pass of the loop over the data rows: an error, \<open>None\<close> for a row that is skipped, or the
  payment to append. The variable \<^verbatim>\<open>dueDate\<close> is declared outside the loop and holds the empty
  string until it is assigned; it is assigned in every pass or in none, since
  \<^verbatim>\<open>dueDateIndex\<close> does not change.
\<close>

definition readRow :: "int \<Rightarrow> int \<Rightarrow> int \<Rightarrow> int \<Rightarrow> Cell list \<Rightarrow> Error + Payment option" where
  "readRow descriptionIndex dueDateIndex paymentDateIndex idx row =
     (if descriptionIndex > int (length row) - 1
        then Inl (CannotReadDescription descriptionIndex idx)
      else if dueDateIndex > int (length row) - 1
        then Inl (CannotReadDueDate dueDateIndex idx)
      else if paymentDateIndex > int (length row) - 1
        then Inl (CannotReadPaymentDate paymentDateIndex idx)
      else
        (case cellString row descriptionIndex of Inl e \<Rightarrow> Inl e | Inr desc \<Rightarrow>
        (case (if dueDateIndex \<ge> 0 then cellString row dueDateIndex else Inr [])
           of Inl e \<Rightarrow> Inl e | Inr dueDate \<Rightarrow>
        (case cellString row paymentDateIndex of Inl e \<Rightarrow> Inl e | Inr paymentDate \<Rightarrow>
           if paymentDate \<noteq> [] then Inr None
           else if dueDateIndex = - 1 then Inr (Some (NewPayment desc))
           else (case ParseDateOnly dueDate of
                   None \<Rightarrow> Inl (FailedToParseDueDate dueDate)
                 | Some t \<Rightarrow> Inr (Some (WithDueDate (NewPayment desc) t)))))))"

fun readRows ::
  "int \<Rightarrow> int \<Rightarrow> int \<Rightarrow> int \<Rightarrow> Cell list list \<Rightarrow> Payment list \<Rightarrow> Error + Payment list" where
  "readRows di dd pd idx [] payments = Inr payments"
| "readRows di dd pd idx (row # rows) payments =
     (case readRow di dd pd idx row of
        Inl e \<Rightarrow> Inl e
      | Inr None \<Rightarrow> readRows di dd pd (idx + 1) rows payments
      | Inr (Some p) \<Rightarrow> readRows di dd pd (idx + 1) rows (payments @ [p]))"

definition readPayments :: "Cell list list \<Rightarrow> Error + Payment list" where
  "readPayments rows =
     (case rows of
        [] \<Rightarrow> Inl IndexOutOfRange
      | header # dataRows \<Rightarrow>
          (case scanHeader header 0 (- 1, - 1, - 1) of
             Inl e \<Rightarrow> Inl e
           | Inr (descriptionIndex, dueDateIndex, paymentDateIndex) \<Rightarrow>
               if descriptionIndex = - 1 then Inl DescriptionLabelNotFound
               else if paymentDateIndex = - 1 then Inl PaymentDateNotFound
               else readRows descriptionIndex dueDateIndex paymentDateIndex 0 dataRows []))"


section \<open>Instants and inputs used in the examples\<close>

text \<open>
  \<open>since1997 t\<close> says that \<open>t\<close> is not earlier than 1997-01-01T00:00:00Z, which lies in the
  years the zone rule above describes. \<open>fixedClock t\<close> is a clock that reads \<open>t\<close> at every
  call; \<open>instant s\<close> is the instant \<open>s\<close> seconds after the epoch.
\<close>

definition since1997 :: "Time \<Rightarrow> bool" where
  "since1997 t = (sec t \<ge> 62987673600)"

definition fixedClock :: "Time \<Rightarrow> Clock" where
  "fixedClock t k = t"

definition instant :: "int \<Rightarrow> Time" where
  "instant s = \<lparr>sec = s, nsec = 0, loc = UTC\<rparr>"

definition sheetHeader :: "Cell list" where
  "sheetHeader = [Str ''Description'', Str ''Due Date'', Str ''Payment Date'']"

definition threePayments :: "Payment list" where
  "threePayments =
     [WithDueDate (NewPayment ''foo'') (Date 2023 11 4 UTC),
      WithDueDate (NewPayment ''bar'') (Date 2023 11 5 UTC),
      WithDueDate (NewPayment ''baz'') (Date 2023 11 6 UTC)]"


section \<open>The tests of the repository\<close>

text \<open>
  \<^verbatim>\<open>Test_Payment_DiffFromToday\<close>: the four pairs of instants of the test, with the expected
  differences 0, 1, -1 and 9.
\<close>

lemma Test_Payment_DiffFromToday:
  "DiffFromNowInDays (WithDueDate (NewPayment ''foo'') (instant 63834605002))
     (instant 63834593782) = 0"
  "DiffFromNowInDays (WithDueDate (NewPayment ''foo'') (instant 63834729082))
     (instant 63834593782) = 1"
  "DiffFromNowInDays (WithDueDate (NewPayment ''foo'') (instant 63834556282))
     (instant 63834593782) = - 1"
  "DiffFromNowInDays (WithDueDate (NewPayment ''foo'') (instant 63835420282))
     (instant 63834593782) = 9"
  by code_simp+

text \<open>\<^verbatim>\<open>Test_FindPaymentsUntil\<close> and \<^verbatim>\<open>Test_FindPaymentsAt\<close>.\<close>

lemma Test_FindPaymentsUntil:
  "map description (FindPaymentsUntil threePayments 0 (Date 2023 11 5 UTC)) = [''foo'', ''bar'']"
  by code_simp

lemma Test_FindPaymentsAt:
  "map description (FindPaymentsAt threePayments 0 (Date 2023 11 5 UTC)) = [''bar'']"
  by code_simp

text \<open>The rows of the same three payments are ingested in their order.\<close>

lemma readPayments_three_rows:
  "readPayments
     [sheetHeader,
      [Str ''foo'', Str ''2023-11-04'', Str []],
      [Str ''bar'', Str ''2023-11-05'', Str []],
      [Str ''baz'', Str ''2023-11-06'', Str []]] = Inr threePayments"
  by code_simp


section \<open>Properties of the classifier loops\<close>

lemma findAtLoop_filter:
  "findAtLoop ps diff now found =
     found @ filter (\<lambda>p. IsDue p \<and> DiffFromNowInDays p now = diff) ps"
  by (induction ps arbitrary: found) simp_all

lemma findUntilLoop_filter:
  "findUntilLoop ps maxDiff now delayed =
     delayed @ filter (\<lambda>p. IsDue p \<and> DiffFromNowInDays p now \<le> maxDiff) ps"
  by (induction ps arbitrary: delayed) simp_all

lemma comingUpLoop_set:
  "set (fst (comingUpLoop clock k ps w acc)) \<subseteq> set acc \<union> {p \<in> set ps. IsDue p}"
proof (induction ps arbitrary: k acc)
  case Nil
  show ?case by simp
next
  case (Cons p ps)
  show ?case
  proof (cases "IsDue p")
    case False
    then show ?thesis using Cons.IH [of k acc] by auto
  next
    case True
    then show ?thesis
      using Cons.IH [of "Suc k" acc] Cons.IH [of "Suc k" "acc @ [p]"]
      by (auto simp: Let_def)
  qed
qed

lemma totalLoop_count:
  "totalLoop clock k ps w n =
     (n + int (length (filter (\<lambda>(i, p). DiffFromNowInDays p (clock i) \<le> w) (enumerate k ps))),
      k + length ps)"
  by (induction ps arbitrary: k n) simp_all

lemma filter_enumerate_length:
  "length (filter (\<lambda>(i, p). P p) (enumerate k ps)) = length (filter P ps)"
  by (induction ps arbitrary: k) simp_all

lemma NewPayment_not_due: "\<not> IsDue (NewPayment d)"
  by (simp add: IsDue_def NewPayment_def)


text \<open>
  \<^bold>\<open>C6\<close> (as amended). \<^verbatim>\<open>FindPaymentsAt\<close> returns exactly the payments that have a due date
  and whose difference in days from \<open>now\<close> equals the target, and \<^verbatim>\<open>FindPaymentsUntil\<close>
  exactly the payments that have a due date and whose difference is at most the bound; both
  keep the order of the input, so each result is a subsequence of the input.
\<close>

theorem find_is_stable_filter_of_due:
  "FindPaymentsAt payments targetDiff now =
      filter (\<lambda>p. IsDue p \<and> DiffFromNowInDays p now = targetDiff) payments
   \<and> FindPaymentsUntil payments maxDiff now =
      filter (\<lambda>p. IsDue p \<and> DiffFromNowInDays p now \<le> maxDiff) payments
   \<and> subseq (FindPaymentsAt payments targetDiff now) payments
   \<and> subseq (FindPaymentsUntil payments maxDiff now) payments"
  by (simp add: FindPaymentsAt_def FindPaymentsUntil_def findAtLoop_filter findUntilLoop_filter)

text \<open>
  \<^bold>\<open>C6\<close> as stated fails: on 2023-11-05 a payment without a due date has the difference
  \<open>-106751\<close>, which is at most \<open>-1\<close> and equal to \<open>-106751\<close>, and neither function returns it.
\<close>

theorem find_skips_payment_without_due_date:
  "DiffFromNowInDays (NewPayment ''rent'') (Date 2023 11 5 UTC) \<le> - 1
   \<and> FindPaymentsUntil [NewPayment ''rent''] (- 1) (Date 2023 11 5 UTC) = []
   \<and> DiffFromNowInDays (NewPayment ''rent'') (Date 2023 11 5 UTC) = - 106751
   \<and> FindPaymentsAt [NewPayment ''rent''] (- 106751) (Date 2023 11 5 UTC) = []"
  by code_simp

text \<open>
  \<^bold>\<open>C7\<close>. A payment without a due date is in no result of \<^verbatim>\<open>FindPaymentsAt\<close>,
  \<^verbatim>\<open>FindPaymentsUntil\<close> or the coming-up loop of \<^verbatim>\<open>SummarizePaymentsComingUp\<close>, whatever the
  instant, the clock and the other arguments are.
\<close>

theorem not_due_never_found:
  "\<not> IsDue P \<Longrightarrow>
     P \<notin> set (FindPaymentsAt payments diff now)
   \<and> P \<notin> set (FindPaymentsUntil payments maxDiff now)
   \<and> P \<notin> set (fst (comingUpLoop clock k payments timeWindowInDays []))"
  using comingUpLoop_set [of clock k payments timeWindowInDays "[]"]
  by (auto simp add: FindPaymentsAt_def FindPaymentsUntil_def findAtLoop_filter
      findUntilLoop_filter)

theorem not_due_never_found_witness:
  "\<not> IsDue (NewPayment ''null'')
   \<and> NewPayment ''null'' \<notin> set (FindPaymentsAt (NewPayment ''null'' # threePayments) 0
        (Date 2023 11 5 UTC))
   \<and> NewPayment ''null'' \<notin> set (FindPaymentsUntil (NewPayment ''null'' # threePayments) (- 1)
        (Date 2023 11 5 UTC))
   \<and> NewPayment ''null'' \<notin> set (fst (comingUpLoop (fixedClock (Date 2023 11 5 UTC)) 0
        (NewPayment ''null'' # threePayments) 2 []))"
proof -
  have h: "\<not> IsDue (NewPayment ''null'')" by (rule NewPayment_not_due)
  from not_due_never_found [OF h] h show ?thesis by blast
qed


section \<open>Properties of the calendar\<close>

lemma daysBefore_nth:
  "daysBefore ! 0 = 0" "daysBefore ! 1 = 31" "daysBefore ! Suc 0 = 31" "daysBefore ! 2 = 59"
  "daysBefore ! 3 = 90" "daysBefore ! 4 = 120" "daysBefore ! 5 = 151" "daysBefore ! 6 = 181"
  "daysBefore ! 7 = 212" "daysBefore ! 8 = 243" "daysBefore ! 9 = 273" "daysBefore ! 10 = 304"
  "daysBefore ! 11 = 334" "daysBefore ! 12 = 365"
  by (simp_all add: daysBefore_def)

lemma month_index_cases:
  fixes k :: int
  assumes "0 \<le> k" "k \<le> 11"
  shows "k = 0 \<or> k = 1 \<or> k = 2 \<or> k = 3 \<or> k = 4 \<or> k = 5 \<or> k = 6 \<or> k = 7
         \<or> k = 8 \<or> k = 9 \<or> k = 10 \<or> k = 11"
  using assms by arith

lemma daysBefore_nonneg:
  fixes k :: int
  assumes "0 \<le> k" "k \<le> 11"
  shows "0 \<le> daysBefore ! nat k"
  using month_index_cases [OF assms] by (auto simp: daysBefore_nth)

text \<open>Cutting whole cycles off leaves a remainder within one cycle.\<close>

lemma cut_cycle:
  fixes a b :: int
  assumes "0 < b"
  shows "0 \<le> a - b * (a div b)" and "a - b * (a div b) < b"
  using assms by (simp_all add: minus_mult_div_eq_mod)

lemma cut_cycle_capped:
  fixes a b :: int
  assumes "0 \<le> a" "0 < b"
  shows "0 \<le> a div b - a div b div 4" and "0 \<le> a - b * (a div b - a div b div 4)"
proof -
  have c: "0 \<le> a div b" using assms by (simp add: pos_imp_zdiv_nonneg_iff)
  then have q: "0 \<le> a div b div 4" by simp
  have "a div b div 4 \<le> a div b" using c by simp
  then show "0 \<le> a div b - a div b div 4" by simp
  have "b * (a div b - a div b div 4) \<le> b * (a div b)"
    using q assms by (simp add: mult_left_mono)
  moreover have "b * (a div b) \<le> a" using cut_cycle(1) [OF assms(2), of a] by simp
  ultimately show "0 \<le> a - b * (a div b - a div b div 4)" by simp
qed

lemma daysBefore_le:
  fixes day :: int
  assumes "0 \<le> day" "day \<le> 365"
  shows "daysBefore ! nat (day div 31) \<le> day"
proof -
  have "0 \<le> day div 31" using assms by simp
  moreover have "day div 31 \<le> 365 div 31" using assms by (intro zdiv_mono1) simp_all
  then have "day div 31 \<le> 11" by simp
  moreover have "31 * (day div 31) \<le> day" using cut_cycle(1) [of 31 day] by simp
  ultimately show ?thesis
    using month_index_cases [of "day div 31"] by (auto simp: daysBefore_nth)
qed

lemma monthDay_ge1:
  assumes "0 \<le> yday" "yday \<le> 365"
  shows "1 \<le> fst (monthDay year yday) \<and> 1 \<le> snd (monthDay year yday)"
proof -
  define day where "day = (if isLeap year \<and> yday > 31 + 29 - 1 then yday - 1 else yday)"
  have d: "0 \<le> day" "day \<le> 365" using assms by (auto simp: day_def)
  have "0 \<le> day div 31" using d by simp
  moreover have "daysBefore ! nat (day div 31) \<le> day" using daysBefore_le [OF d] .
  ultimately show ?thesis
    unfolding monthDay_def Let_def day_def [symmetric] by auto
qed

lemma yday_bounds:
  fixes d3 :: int
  assumes "0 \<le> d3" "d3 < 1461"
  shows "0 \<le> d3 - 365 * (d3 div 365 - d3 div 365 div 4)"
    and "d3 - 365 * (d3 div 365 - d3 div 365 div 4) \<le> 365"
proof -
  show "0 \<le> d3 - 365 * (d3 div 365 - d3 div 365 div 4)"
    using cut_cycle_capped(2) [of d3 365] assms by simp
  define c where "c = d3 div 365"
  have c0: "0 \<le> c" using assms by (simp add: c_def)
  have "c \<le> 1460 div 365" unfolding c_def using assms by (intro zdiv_mono1) simp_all
  then have c4: "c \<le> 4" by simp
  have lo: "365 * c \<le> d3" and hi: "d3 < 365 * c + 365"
    using cut_cycle [of 365 d3] by (simp_all add: c_def)
  have "c = 0 \<or> c = 1 \<or> c = 2 \<or> c = 3 \<or> c = 4" using c0 c4 by arith
  then have "d3 - 365 * (c - c div 4) \<le> 365"
    using lo hi assms by (elim disjE) simp_all
  then show "d3 - 365 * (d3 div 365 - d3 div 365 div 4) \<le> 365" by (simp add: c_def)
qed

text \<open>A day number from year 1601 on lies in a year from 1601 on.\<close>

lemma absDate_year_lb:
  assumes "584388 \<le> days"
  shows "1601 \<le> fst (absDate days)"
proof -
  define n400 where "n400 = days div 146097"
  define d1 where "d1 = days - 146097 * n400"
  define n100 where "n100 = d1 div 36524 - d1 div 36524 div 4"
  define d2 where "d2 = d1 - 36524 * n100"
  define n4 where "n4 = d2 div 1461"
  define d3 where "d3 = d2 - 1461 * n4"
  define n1 where "n1 = d3 div 365 - d3 div 365 div 4"
  have "584388 div 146097 \<le> days div 146097" using assms by (intro zdiv_mono1) simp_all
  then have n400: "4 \<le> n400" by (simp add: n400_def)
  have d1: "0 \<le> d1" unfolding d1_def n400_def by (rule cut_cycle) simp
  have n100: "0 \<le> n100" unfolding n100_def using d1 by (intro cut_cycle_capped) simp_all
  have d2: "0 \<le> d2" unfolding d2_def n100_def using d1 by (intro cut_cycle_capped) simp_all
  have n4: "0 \<le> n4" unfolding n4_def using d2 by simp
  have d3: "0 \<le> d3" unfolding d3_def n4_def by (rule cut_cycle) simp
  have n1: "0 \<le> n1" unfolding n1_def using d3 by (intro cut_cycle_capped) simp_all
  have "1601 \<le> 400 * n400 + 100 * n100 + 4 * n4 + n1 + 1"
    using n400 n100 n4 n1 by linarith
  then show ?thesis
    unfolding absDate_def Let_def n400_def d1_def n100_def d2_def n4_def d3_def n1_def fst_conv .
qed

lemma absDate_monthDay_ge1:
  "1 \<le> fst (snd (absDate days)) \<and> 1 \<le> snd (snd (absDate days))"
proof -
  define n400 where "n400 = days div 146097"
  define d1 where "d1 = days - 146097 * n400"
  define n100 where "n100 = d1 div 36524 - d1 div 36524 div 4"
  define d2 where "d2 = d1 - 36524 * n100"
  define n4 where "n4 = d2 div 1461"
  define d3 where "d3 = d2 - 1461 * n4"
  have "0 \<le> d3" "d3 < 1461" unfolding d3_def n4_def by (rule cut_cycle, simp)+
  from yday_bounds [OF this] show ?thesis
    unfolding absDate_def Let_def n400_def d1_def n100_def d2_def n4_def d3_def snd_conv
    by (rule monthDay_ge1)
qed

lemma daysSinceEpoch_lb:
  assumes "1601 \<le> year"
  shows "584388 \<le> daysSinceEpoch year"
proof -
  define y0 where "y0 = year - 1"
  define n400 where "n400 = y0 div 400"
  define y1 where "y1 = y0 - 400 * n400"
  define n100 where "n100 = y1 div 100"
  define y2 where "y2 = y1 - 100 * n100"
  define n4 where "n4 = y2 div 4"
  define y3 where "y3 = y2 - 4 * n4"
  have "1600 div 400 \<le> y0 div 400" using assms unfolding y0_def by (intro zdiv_mono1) simp_all
  then have n400: "4 \<le> n400" by (simp add: n400_def)
  have y1: "0 \<le> y1" unfolding y1_def n400_def by (rule cut_cycle) simp
  then have n100: "0 \<le> n100" unfolding n100_def by simp
  have y2: "0 \<le> y2" unfolding y2_def n100_def by (rule cut_cycle) simp
  then have n4: "0 \<le> n4" unfolding n4_def by simp
  have y3: "0 \<le> y3" unfolding y3_def n4_def by (rule cut_cycle) simp
  have "584388 \<le> 146097 * n400 + 36524 * n100 + 1461 * n4 + 365 * y3"
    using n400 n100 n4 y3 by linarith
  then show ?thesis
    unfolding daysSinceEpoch_def Let_def y0_def n400_def y1_def n100_def y2_def n4_def y3_def .
qed

text \<open>From 1996 to 2037 the rule gives the transitions of the database.\<close>

lemma athensRule_transitions:
  "map dstStart [1996..2037] = summerTimeStarts"
  "map dstEnd [1996..2037] = summerTimeEnds"
  by code_simp+

text \<open>
  Offsets of the table: local mean time in 1890, UTC+1 in December 1942, summer time in May
  1976 and, in 1995, when summer time ended on September 24, UTC+2 on October 10; and two
  differences in days from a due date in October 1995.
\<close>

lemma athensLookup_history:
  "fst (athensLookup (sec (Date 1890 1 1 UTC))) = 5692"
  "fst (athensLookup (sec (Date 1942 12 1 UTC))) = 3600"
  "fst (athensLookup (sec (Date 1976 5 1 UTC))) = 10800"
  "fst (athensLookup (sec (Date 1995 10 10 UTC))) = 7200"
  "DiffFromNowInDays (WithDueDate (NewPayment ''rent'') (Date 1995 10 10 UTC))
     (Date 1995 9 20 UTC) = 20"
  "DiffFromNowInDays (WithDueDate (NewPayment ''rent'') (Date 1995 10 10 UTC))
     (Date 2023 11 5 UTC) = - 10253"
  by code_simp+

lemma lookupTransitions_offset:
  assumes "\<forall>x\<in>set tx. 0 \<le> snd x \<and> snd x \<le> 10800" "0 \<le> offset" "offset \<le> 10800"
  shows "0 \<le> fst (lookupTransitions tx offset zstart zlimit s)
       \<and> fst (lookupTransitions tx offset zstart zlimit s) \<le> 10800"
  using assms by (induction tx offset zstart zlimit s rule: lookupTransitions.induct) auto

lemma athensTransitions_offsets: "\<forall>x\<in>set athensTransitions. 0 \<le> snd x \<and> snd x \<le> 10800"
  by (simp add: athensTransitions_def)

lemma athensLookup_offset: "0 \<le> fst (athensLookup s) \<and> fst (athensLookup s) \<le> 10800"
proof (cases "s < dstStart 1996")
  case True
  then show ?thesis
    using lookupTransitions_offset [OF athensTransitions_offsets, of 5692]
    by (simp add: athensLookup_def)
next
  case False
  then show ?thesis by (simp add: athensLookup_def athensRule_def Let_def)
qed

lemma Date_Athens_nsec: "nsec (Date year month day Athens) = 0"
  by (simp add: Date_def Let_def split: prod.splits)

lemma Date_Athens_loc: "loc (Date year month day Athens) = Athens"
  by (simp add: Date_def Let_def split: prod.splits)

lemma Date_Athens_lb:
  assumes "1601 \<le> year" "1 \<le> month" "1 \<le> day"
  shows "50491112400 \<le> sec (Date year month day Athens)"
proof -
  define m0 where "m0 = month - 1"
  define year' where "year' = year + m0 div 12"
  define m where "m = m0 mod 12"
  define d where "d = daysSinceEpoch year' + daysBefore ! nat m
              + (if isLeap year' \<and> m + 1 \<ge> 3 then 1 else 0) + (day - 1)"
  have "0 \<le> m0 div 12" using assms unfolding m0_def by simp
  then have "1601 \<le> year'" using assms unfolding year'_def by simp
  then have "584388 \<le> daysSinceEpoch year'" by (rule daysSinceEpoch_lb)
  moreover have "0 \<le> m" "m \<le> 11" unfolding m_def by simp_all
  then have "0 \<le> daysBefore ! nat m" by (rule daysBefore_nonneg)
  ultimately have d: "584388 \<le> d" using assms unfolding d_def by simp
  have off: "fst (athensLookup s) \<le> 10800" for s
    using athensLookup_offset [of s] by simp
  have "d * 86400 - 10800 \<le> sec (Date year month day Athens)"
    unfolding Date_def Let_def m0_def [symmetric] year'_def [symmetric] m_def [symmetric]
      d_def [symmetric]
    using off [of "d * 86400"] off [of "d * 86400 - fst (athensLookup (d * 86400))"]
    by (auto split: prod.splits)
  then show ?thesis using d by simp
qed

text \<open>The start of the Athens day of an instant since 1997 lies after the year 1600.\<close>

lemma ToDate_lb:
  assumes "since1997 now"
  shows "50491112400 \<le> sec (ToDate (In now GreekTimeZone))"
proof -
  define t where "t = In now GreekTimeZone"
  have "0 \<le> zoneOffset t"
    using athensLookup_offset [of "sec t"] by (auto simp: zoneOffset_def split: Location.splits)
  moreover have "sec t = sec now" by (simp add: t_def In_def)
  ultimately have "62987673600 \<le> sec t + zoneOffset t"
    using assms by (simp add: since1997_def)
  then have "62987673600 div 86400 \<le> (sec t + zoneOffset t) div 86400"
    by (intro zdiv_mono1) simp_all
  then have "584388 \<le> (sec t + zoneOffset t) div 86400" by simp
  then have "1601 \<le> Year t" unfolding Year_def date_def by (rule absDate_year_lb)
  moreover have "1 \<le> Month t" "1 \<le> Day t"
    unfolding Month_def Day_def date_def using absDate_monthDay_ge1 by simp_all
  ultimately have "50491112400 \<le> sec (Date (Year t) (Month t) (Day t) Athens)"
    by (rule Date_Athens_lb)
  then show ?thesis by (simp add: ToDate_def t_def GreekTimeZone_def)
qed


section \<open>Properties of \<^verbatim>\<open>Sub\<close> and of the difference in days\<close>

lemma wrap64_range: "minDuration \<le> wrap64 x \<and> wrap64 x \<le> maxDuration"
proof -
  have "0 \<le> (x + 2 ^ 63) mod 2 ^ 64" "(x + 2 ^ 63) mod 2 ^ 64 < (2 ^ 64 :: int)"
    by simp_all
  then show ?thesis by (simp add: wrap64_def minDuration_def maxDuration_def)
qed

lemma Add_total:
  "sec (Add u d) * 1000000000 + nsec (Add u d) = sec u * 1000000000 + nsec u + d"
  by (simp add: Add_def Let_def tmod_def algebra_simps)

lemma Sub_ge_minDuration: "minDuration \<le> Sub t u"
  using wrap64_range by (simp add: Sub_def Let_def minDuration_def maxDuration_def)

text \<open>
  The zero time lies more than \<open>2^63\<close> nanoseconds before any instant later than about 292
  years after the epoch: the subtraction overflows and \<^verbatim>\<open>Sub\<close> saturates.
\<close>

lemma Sub_zeroTime:
  assumes "9223372037 \<le> sec u" "0 \<le> nsec u"
  shows "Sub zeroTime u = minDuration"
proof -
  define d where "d = wrap64 ((sec zeroTime - sec u) * 1000000000 + (nsec zeroTime - nsec u))"
  have "\<not> Equal (Add u d) zeroTime"
  proof
    assume "Equal (Add u d) zeroTime"
    then have "sec (Add u d) * 1000000000 + nsec (Add u d) = 0"
      by (simp add: Equal_def zeroTime_def)
    then have "d = - (sec u * 1000000000 + nsec u)" using Add_total [of u d] by simp
    moreover have "9223372037 * 1000000000 \<le> sec u * 1000000000" using assms(1) by simp
    ultimately have "d < minDuration" using assms(2) by (simp add: minDuration_def)
    then show False
      using wrap64_range [of "(sec zeroTime - sec u) * 1000000000 + (nsec zeroTime - nsec u)"]
      by (simp add: d_def)
  qed
  moreover have "Before zeroTime u" using assms by (simp add: Before_def zeroTime_def)
  ultimately show ?thesis by (simp add: Sub_def Let_def d_def)
qed

lemma daysOfDuration_minDuration: "daysOfDuration minDuration = - 106751"
  by (simp add: daysOfDuration_def tdiv_def minDuration_def)

lemma daysOfDuration_lb:
  assumes "minDuration \<le> d"
  shows "- 106751 \<le> daysOfDuration d"
proof (cases "d < 0")
  case True
  then have "(- d) div 86400000000000 \<le> (2 ^ 63) div 86400000000000"
    using assms by (intro zdiv_mono1) (simp_all add: minDuration_def)
  then show ?thesis using True by (simp add: daysOfDuration_def tdiv_def)
next
  case False
  then have "0 \<le> d div 86400000000000" by simp
  then show ?thesis using False by (simp add: daysOfDuration_def tdiv_def)
qed

lemma Diff_lb: "- 106751 \<le> DiffFromNowInDays p now"
  by (simp add: DiffFromNowInDays_def Let_def daysOfDuration_lb Sub_ge_minDuration)

lemma Diff_not_due:
  assumes "\<not> IsDue p" "since1997 now"
  shows "DiffFromNowInDays p now = - 106751"
proof -
  define now' where "now' = ToDate (In now GreekTimeZone)"
  have "due p = zeroTime" using assms(1) by (simp add: IsDue_def)
  moreover have "9223372037 \<le> sec now'" using ToDate_lb [OF assms(2)] by (simp add: now'_def)
  moreover have "nsec now' = 0"
    by (simp add: now'_def ToDate_def GreekTimeZone_def Date_Athens_nsec)
  ultimately have "Sub (due p) now' = minDuration" by (simp add: Sub_zeroTime)
  then show ?thesis
    by (simp add: DiffFromNowInDays_def Let_def now'_def [symmetric] daysOfDuration_minDuration)
qed

lemma WithDueDate_due: "IsDue (WithDueDate p t)"
proof -
  have "loc (due (WithDueDate p t)) = Athens"
    by (simp add: WithDueDate_def ToDate_def GreekTimeZone_def Date_Athens_loc)
  then show ?thesis by (auto simp: IsDue_def zeroTime_def)
qed

text \<open>
  \<^bold>\<open>C10\<close>. \<^verbatim>\<open>DiffFromNowInDays\<close> has no failing branch: for a payment without a due date it
  subtracts \<open>now\<close> from the zero time, \<^verbatim>\<open>Sub\<close> saturates, and the result is \<open>-106751\<close> for
  every \<open>now\<close> since 1997. No payment at any instant has a smaller difference, so the payment
  passes every test \<open>delta \<le> maxDiff\<close> that any payment can pass, which are the tests with
  \<open>maxDiff\<close> not below \<open>-106751\<close>.
\<close>

theorem diff_without_due_date:
  assumes "since1997 now"
  shows "DiffFromNowInDays (NewPayment d) now = - 106751
       \<and> (\<forall>p' now'. DiffFromNowInDays (NewPayment d) now \<le> DiffFromNowInDays p' now')
       \<and> (\<forall>maxDiff. - 106751 \<le> maxDiff \<longrightarrow> DiffFromNowInDays (NewPayment d) now \<le> maxDiff)"
  using Diff_not_due [OF NewPayment_not_due assms, of d] Diff_lb by simp

theorem diff_without_due_date_witness:
  "since1997 (instant 63834593782)
   \<and> DiffFromNowInDays (NewPayment ''rent'') (instant 63834593782) = - 106751
   \<and> DiffFromNowInDays (NewPayment ''rent'') (instant 63834593782) \<le> - 1
   \<and> DiffFromNowInDays (NewPayment ''rent'') (instant 63834593782) \<le> 30"
proof -
  have h: "since1997 (instant 63834593782)" by (simp add: since1997_def instant_def)
  from diff_without_due_date [OF h, of "''rent''"] h show ?thesis by simp
qed


text \<open>
  \<^bold>\<open>C3\<close>. The code at a due date across the start of summer time (2023-03-26, 03:00 in
  Athens). The payment is due on March 27 and \<open>now\<close> lies on March 26 in Athens; the two
  midnights are 23 hours apart and the difference in days is 0, where the calendar says 1.
  From March 25 the difference to March 27 is 1 (47 hours), and from March 27 back to
  March 25 it is -1: the conversion to \<^verbatim>\<open>int\<close> drops the fraction, it does not floor.
\<close>

theorem diff_across_spring_forward:
  "date (due (WithDueDate (NewPayment ''rent'') (Date 2023 3 27 UTC))) = (2023, 3, 27)
   \<and> date (ToDate (In (Date 2023 3 26 UTC) GreekTimeZone)) = (2023, 3, 26)
   \<and> Sub (due (WithDueDate (NewPayment ''rent'') (Date 2023 3 27 UTC)))
          (ToDate (In (Date 2023 3 26 UTC) GreekTimeZone)) = 23 * 3600 * 1000000000
   \<and> DiffFromNowInDays (WithDueDate (NewPayment ''rent'') (Date 2023 3 27 UTC))
        (Date 2023 3 26 UTC) = 0
   \<and> DiffFromNowInDays (WithDueDate (NewPayment ''rent'') (Date 2023 3 27 UTC))
        (Date 2023 3 25 UTC) = 1
   \<and> DiffFromNowInDays (WithDueDate (NewPayment ''rent'') (Date 2023 3 25 UTC))
        (Date 2023 3 27 UTC) = - 1"
  by code_simp

text \<open>
  On that day the report lists a payment due tomorrow under "Today" and leaves it out of
  "Coming Up".
\<close>

lemma report_on_spring_forward_day:
  "FindPaymentsAt [WithDueDate (NewPayment ''rent'') (Date 2023 3 27 UTC)] 0 (Date 2023 3 26 UTC)
     = [WithDueDate (NewPayment ''rent'') (Date 2023 3 27 UTC)]
   \<and> fst (comingUpLoop (fixedClock (Date 2023 3 26 UTC)) 0
        [WithDueDate (NewPayment ''rent'') (Date 2023 3 27 UTC)] 2 []) = []"
  by code_simp


section \<open>The total of pending payments\<close>

text \<open>
  \<^bold>\<open>C2\<close> (as amended). The loop of \<^verbatim>\<open>SummarizeTotalPayments\<close> counts every payment whose
  difference in days from the clock reading made for it is at most the window, whether the
  payment has a due date or not; with a clock that stands still that is the number of
  payments whose difference from \<open>now\<close> is at most the window. The count is what the summary
  prints. A payment without a due date adds one to the count whenever its clock reading lies
  in 1997 or later and the window is not below \<open>-106751\<close>.
\<close>

theorem total_counts_every_payment:
  "fst (totalLoop clock k payments w 0) =
      int (length (filter (\<lambda>(i, p). DiffFromNowInDays p (clock i) \<le> w) (enumerate k payments)))
   \<and> fst (totalLoop (fixedClock now) k payments w 0) =
      int (length (filter (\<lambda>p. DiffFromNowInDays p now \<le> w) payments))
   \<and> SummarizeTotalPayments clock k payments w =
      (glyphMoneyBag @ '' Total '' @ itoa (fst (totalLoop clock k payments w 0))
         @ '' payments pending during the next '' @ itoa w @ '' days'',
       k + length payments)
   \<and> (\<not> IsDue p \<and> since1997 (clock k) \<and> - 106751 \<le> w \<longrightarrow>
        totalLoop clock k (p # payments) w n = totalLoop clock (Suc k) payments w (n + 1))"
proof -
  have "fst (totalLoop (fixedClock now) k payments w 0) =
      int (length (filter (\<lambda>p. DiffFromNowInDays p now \<le> w) payments))"
    by (simp add: totalLoop_count fixedClock_def filter_enumerate_length)
  moreover have "\<not> IsDue p \<and> since1997 (clock k) \<and> - 106751 \<le> w \<longrightarrow>
        totalLoop clock k (p # payments) w n = totalLoop clock (Suc k) payments w (n + 1)"
    using Diff_not_due [of p "clock k"] by simp
  ultimately show ?thesis
    by (simp add: totalLoop_count SummarizeTotalPayments_def)
qed

theorem total_counts_every_payment_witness:
  "\<not> IsDue (NewPayment ''rent'')
   \<and> since1997 (fixedClock (instant 63834593782) 0)
   \<and> (- 106751 :: int) \<le> 30
   \<and> totalLoop (fixedClock (instant 63834593782)) 0 [NewPayment ''rent''] 30 0 = (1, 1)"
proof -
  have h: "\<not> IsDue (NewPayment ''rent'')" by (rule NewPayment_not_due)
  have s: "since1997 (fixedClock (instant 63834593782) 0)"
    by (simp add: since1997_def fixedClock_def instant_def)
  from total_counts_every_payment
         [of "fixedClock (instant 63834593782)" 0 "[]" 30 _ "NewPayment ''rent''" 0]
  have "totalLoop (fixedClock (instant 63834593782)) 0 [NewPayment ''rent''] 30 0
          = totalLoop (fixedClock (instant 63834593782)) (Suc 0) [] 30 (0 + 1)"
    using h s by simp
  then show ?thesis using h s by simp
qed

text \<open>
  \<^bold>\<open>C2\<close> as stated fails: a list that holds one payment, without a due date, is counted as
  one pending payment.
\<close>

theorem total_counts_payment_without_due_date:
  "\<not> IsDue (NewPayment ''rent'')
   \<and> fst (totalLoop (fixedClock (instant 63834593782)) 0 [NewPayment ''rent''] 30 0) = 1
   \<and> fst (SummarizeTotalPayments (fixedClock (instant 63834593782)) 0 [NewPayment ''rent''] 30)
       = glyphMoneyBag @ '' Total 1 payments pending during the next 30 days''"
  by code_simp


section \<open>Properties of the report\<close>

lemma Join_snoc:
  "xs \<noteq> [] \<Longrightarrow> Join (xs @ [y]) sep = Join xs sep @ sep @ y"
  by (induction xs sep rule: Join.induct) simp_all

lemma Join_last:
  "y \<noteq> [] \<Longrightarrow> Join (xs @ [y]) sep \<noteq> [] \<and> last (Join (xs @ [y]) sep) = last y"
  by (cases "xs = []") (simp_all add: Join_snoc)

lemma itoa_2: "itoa 2 = ''2''"
  by (simp add: itoa_def natStr.simps)

lemma Delayed_snd: "snd (SummarizeDelayedPayments clock k ps) = Suc k"
  by (simp add: SummarizeDelayedPayments_def Let_def)

lemma Today_snd: "snd (SummarizePaymentsForToday clock k ps) = Suc k"
  by (simp add: SummarizePaymentsForToday_def Let_def)

lemma Today_nonempty: "fst (SummarizePaymentsForToday clock k ps) \<noteq> []"
  by (simp add: SummarizePaymentsForToday_def Let_def glyphMoneyWings_def glyphSunglasses_def)

lemma ComingUp_nonempty: "fst (SummarizePaymentsComingUp clock k ps w) \<noteq> []"
  by (simp add: SummarizePaymentsComingUp_def glyphHourglass_def glyphSunglasses_def
      split: prod.splits)

lemma Total_nonempty: "fst (SummarizeTotalPayments clock k ps w) \<noteq> []"
  by (simp add: SummarizeTotalPayments_def glyphMoneyBag_def split: prod.splits)

lemma Total_last: "last (fst (SummarizeTotalPayments clock k ps w)) = CHR ''s''"
  by (simp add: SummarizeTotalPayments_def split: prod.splits)

text \<open>
  The sections that \<^verbatim>\<open>run\<close> collects: the delayed line when there is one, then the three
  lines that are never empty. The clock is read once for the delayed line and once for the
  line of today.
\<close>

lemma collectSections_eq:
  "collectSections clock payments =
     (if fst (SummarizeDelayedPayments clock 0 payments) = [] then []
      else [fst (SummarizeDelayedPayments clock 0 payments)])
     @ [fst (SummarizePaymentsForToday clock 1 payments),
        fst (SummarizePaymentsComingUp clock 2 payments 2),
        fst (SummarizeTotalPayments clock
               (snd (SummarizePaymentsComingUp clock 2 payments 2)) payments 30)]"
proof -
  obtain s1 k1 where d: "SummarizeDelayedPayments clock 0 payments = (s1, k1)" by fastforce
  have k1: "k1 = 1" using Delayed_snd [of clock 0 payments] d by simp
  obtain s2 k2 where t: "SummarizePaymentsForToday clock 1 payments = (s2, k2)" by fastforce
  have k2: "k2 = 2" using Today_snd [of clock 1 payments] t by simp
  have s2: "s2 \<noteq> []" using Today_nonempty [of clock 1 payments] t by simp
  obtain s3 k3 where c: "SummarizePaymentsComingUp clock 2 payments 2 = (s3, k3)" by fastforce
  have s3: "s3 \<noteq> []" using ComingUp_nonempty [of clock 2 payments 2] c by simp
  obtain s4 k4 where n: "SummarizeTotalPayments clock k3 payments 30 = (s4, k4)" by fastforce
  have s4: "s4 \<noteq> []" using Total_nonempty [of clock k3 payments 30] n by simp
  show ?thesis
    using d t c n s2 s3 s4 by (simp add: collectSections_def Let_def k1 k2)
qed

text \<open>
  \<^bold>\<open>C9\<close>. For every list of payments and every clock the report is not empty and is not the
  line "Nothing to report": the summaries of today, of the coming days and of the total are
  never empty, so \<^verbatim>\<open>run\<close> always collects at least one section, and the report ends with the
  last letter of the total line while the fixed line ends with another letter.
\<close>

theorem report_never_empty:
  "report clock payments \<noteq> []
   \<and> report clock payments \<noteq> nothingToReport
   \<and> length (collectSections clock payments) \<noteq> 0
   \<and> fst (SummarizePaymentsForToday clock k payments) \<noteq> []
   \<and> fst (SummarizePaymentsComingUp clock k payments w) \<noteq> []
   \<and> fst (SummarizeTotalPayments clock k payments w) \<noteq> []"
proof -
  define tot where "tot = fst (SummarizeTotalPayments clock
               (snd (SummarizePaymentsComingUp clock 2 payments 2)) payments 30)"
  obtain xs where xs: "collectSections clock payments = xs @ [tot]"
    using collectSections_eq [of clock payments] by (auto simp: tot_def)
  have tot: "tot \<noteq> []" "last tot = CHR ''s''"
    by (simp_all add: tot_def Total_nonempty Total_last)
  have r: "report clock payments = Join (xs @ [tot]) newline"
    by (simp add: report_def formatReport_def xs)
  have "last (report clock payments) = CHR ''s''" "report clock payments \<noteq> []"
    using Join_last [OF tot(1), of xs newline] tot(2) r by simp_all
  moreover have "last nothingToReport = CHR ''t''"
    by (simp add: nothingToReport_def)
  ultimately have "report clock payments \<noteq> nothingToReport" "report clock payments \<noteq> []"
    by auto
  then show ?thesis
    by (simp add: xs Today_nonempty ComingUp_nonempty Total_nonempty)
qed

text \<open>The coming-up loop under a clock that stands still is a filter of the payments.\<close>

lemma comingUpLoop_fixedClock:
  "comingUpLoop (fixedClock now) k ps w acc =
     (acc @ filter (\<lambda>p. IsDue p \<and> 1 \<le> DiffFromNowInDays p now
                          \<and> DiffFromNowInDays p now \<le> w) ps,
      k + length (filter IsDue ps))"
  by (induction ps arbitrary: k acc) (simp_all add: fixedClock_def Let_def)

lemma itoa_30: "itoa 30 = ''30''"
  by (simp add: itoa_def natStr.simps)

text \<open>
  \<^bold>\<open>C4\<close>. With \<open>delayed\<close>, \<open>scheduled\<close> and \<open>coming\<close> the buckets of the payments that are
  overdue, due today and due within the next two days, and \<open>n\<close> the count of the payments
  pending within thirty days, the report is: the delayed line (only when \<open>delayed\<close> is not
  empty, and then first), the line of today, the line of the coming days and the total line,
  in this order, with one newline between two lines. The delayed line, and the lines of
  today and of the coming days when their buckets are not empty, are the glyph and tag of
  the section followed by the descriptions of the bucket joined by a comma and a space; with
  an empty bucket the line of today and the line of the coming days are the fixed lines of
  those sections. The sections that \<^verbatim>\<open>run\<close> collects are these lines, each summary returns
  its line, and a list of no sections is formatted as the line "Nothing to report".
\<close>

theorem report_sections_in_order:
  "(let delayed = FindPaymentsUntil payments (- 1) (clock 0);
        scheduled = FindPaymentsAt payments 0 (clock 1);
        coming = comingUpLoop clock 2 payments 2 [];
        n = fst (totalLoop clock (snd coming) payments 30 0);
        delayedLine = glyphWarning @ '' Delayed: '' @ Join (map description delayed) '', '';
        todayLine =
          (if scheduled = [] then glyphSunglasses @ '' Nothing for today''
           else glyphMoneyWings @ '' Today: '' @ Join (map description scheduled) '', '');
        comingLine =
          (if fst coming = [] then glyphSunglasses @ '' Nothing coming up (next 2 days)''
           else glyphHourglass @ '' Coming Up (next 2 days): ''
                @ Join (map description (fst coming)) '', '');
        totalLine = glyphMoneyBag @ '' Total '' @ itoa n
                @ '' payments pending during the next 30 days''
    in report clock payments =
         (if delayed = [] then [] else delayedLine @ newline)
         @ todayLine @ newline @ comingLine @ newline @ totalLine
     \<and> collectSections clock payments =
         (if delayed = [] then [] else [delayedLine]) @ [todayLine, comingLine, totalLine]
     \<and> fst (SummarizeDelayedPayments clock 0 payments)
         = (if delayed = [] then [] else delayedLine)
     \<and> fst (SummarizePaymentsForToday clock 1 payments) = todayLine
     \<and> fst (SummarizePaymentsComingUp clock 2 payments 2) = comingLine
     \<and> fst (SummarizeTotalPayments clock (snd coming) payments 30) = totalLine
     \<and> formatReport [] = nothingToReport)"
proof -
  define delayed where "delayed = FindPaymentsUntil payments (- 1) (clock 0)"
  define scheduled where "scheduled = FindPaymentsAt payments 0 (clock 1)"
  define coming where "coming = comingUpLoop clock 2 payments 2 []"
  define delayedLine where
    "delayedLine = glyphWarning @ '' Delayed: '' @ Join (map description delayed) '', ''"
  have d: "fst (SummarizeDelayedPayments clock 0 payments)
             = (if delayed = [] then [] else delayedLine)"
    by (simp add: SummarizeDelayedPayments_def Let_def delayed_def delayedLine_def)
  have dl: "delayedLine \<noteq> []" by (simp add: delayedLine_def glyphWarning_def)
  have t: "fst (SummarizePaymentsForToday clock 1 payments) =
          (if scheduled = [] then glyphSunglasses @ '' Nothing for today''
           else glyphMoneyWings @ '' Today: '' @ Join (map description scheduled) '', '')"
    by (simp add: SummarizePaymentsForToday_def Let_def scheduled_def)
  have c: "fst (SummarizePaymentsComingUp clock 2 payments 2) =
          (if fst coming = [] then glyphSunglasses @ '' Nothing coming up (next 2 days)''
           else glyphHourglass @ '' Coming Up (next 2 days): ''
                @ Join (map description (fst coming)) '', '')"
    and ck: "snd (SummarizePaymentsComingUp clock 2 payments 2) = snd coming"
    by (simp_all add: SummarizePaymentsComingUp_def coming_def itoa_2 split: prod.splits)
  have n: "fst (SummarizeTotalPayments clock (snd coming) payments 30) =
          glyphMoneyBag @ '' Total '' @ itoa (fst (totalLoop clock (snd coming) payments 30 0))
                @ '' payments pending during the next 30 days''"
    by (simp add: SummarizeTotalPayments_def itoa_30 split: prod.splits)
  have s: "collectSections clock payments =
         (if delayed = [] then [] else [delayedLine])
         @ [fst (SummarizePaymentsForToday clock 1 payments),
            fst (SummarizePaymentsComingUp clock 2 payments 2),
            fst (SummarizeTotalPayments clock (snd coming) payments 30)]"
    using dl by (simp add: collectSections_eq d ck)
  have r: "report clock payments =
         (if delayed = [] then [] else delayedLine @ newline)
         @ fst (SummarizePaymentsForToday clock 1 payments) @ newline
         @ fst (SummarizePaymentsComingUp clock 2 payments 2) @ newline
         @ fst (SummarizeTotalPayments clock (snd coming) payments 30)"
    by (simp add: report_def formatReport_def s)
  have f: "formatReport [] = nothingToReport" by (simp add: formatReport_def)
  show ?thesis
    unfolding Let_def delayed_def [symmetric] scheduled_def [symmetric] coming_def [symmetric]
      delayedLine_def [symmetric]
    using r s d f by (simp only: t c n)
qed

text \<open>
  The theorem at the three payments of the tests on 2023-11-05, where every bucket holds a
  payment and the report has all four sections, and at one payment without a due date, where
  the three buckets are empty.
\<close>

theorem report_sections_in_order_witness:
  "report (fixedClock (Date 2023 11 5 UTC)) threePayments =
       glyphWarning @ '' Delayed: foo'' @ newline
       @ glyphMoneyWings @ '' Today: bar'' @ newline
       @ glyphHourglass @ '' Coming Up (next 2 days): baz'' @ newline
       @ glyphMoneyBag @ '' Total 3 payments pending during the next 30 days''
   \<and> report (fixedClock (Date 2023 11 5 UTC)) [NewPayment ''rent''] =
       glyphSunglasses @ '' Nothing for today'' @ newline
       @ glyphSunglasses @ '' Nothing coming up (next 2 days)'' @ newline
       @ glyphMoneyBag @ '' Total 1 payments pending during the next 30 days''"
proof -
  define now where "now = Date 2023 11 5 UTC"
  have a: "map description (FindPaymentsUntil threePayments (- 1) now) = [''foo'']"
    and b: "map description (FindPaymentsAt threePayments 0 now) = [''bar'']"
    and c: "map description (fst (comingUpLoop (fixedClock now) 2 threePayments 2 []))
              = [''baz'']"
    and n: "itoa (fst (totalLoop (fixedClock now)
              (snd (comingUpLoop (fixedClock now) 2 threePayments 2 [])) threePayments 30 0))
            = ''3''"
    unfolding now_def by code_simp+
  define ps where "ps = [NewPayment ''rent'']"
  have a': "FindPaymentsUntil ps (- 1) now = []"
    and b': "FindPaymentsAt ps 0 now = []"
    and c': "fst (comingUpLoop (fixedClock now) 2 ps 2 []) = []"
    and n': "itoa (fst (totalLoop (fixedClock now)
              (snd (comingUpLoop (fixedClock now) 2 ps 2 [])) ps 30 0)) = ''1''"
    unfolding now_def ps_def by code_simp+
  have ne: "FindPaymentsUntil threePayments (- 1) now \<noteq> []"
    "FindPaymentsAt threePayments 0 now \<noteq> []"
    "fst (comingUpLoop (fixedClock now) 2 threePayments 2 []) \<noteq> []"
    using a b c by auto
  have "report (fixedClock now) threePayments =
       glyphWarning @ '' Delayed: foo'' @ newline
       @ glyphMoneyWings @ '' Today: bar'' @ newline
       @ glyphHourglass @ '' Coming Up (next 2 days): baz'' @ newline
       @ glyphMoneyBag @ '' Total 3 payments pending during the next 30 days''"
    using report_sections_in_order [of threePayments "fixedClock now"] ne
    by (simp add: Let_def fixedClock_def [of now 0] fixedClock_def [of now 1]
        fixedClock_def [of now "Suc 0"] a b c n)
  moreover have "report (fixedClock now) ps =
       glyphSunglasses @ '' Nothing for today'' @ newline
       @ glyphSunglasses @ '' Nothing coming up (next 2 days)'' @ newline
       @ glyphMoneyBag @ '' Total 1 payments pending during the next 30 days''"
    using report_sections_in_order [of ps "fixedClock now"]
    by (simp add: Let_def fixedClock_def [of now 0] fixedClock_def [of now 1]
        fixedClock_def [of now "Suc 0"] a' b' c' n')
  ultimately show ?thesis unfolding now_def ps_def by simp
qed

text \<open>
  The same report evaluated directly, and the report on 2023-11-04, when nothing is overdue
  and the delayed section is left out.
\<close>

lemma report_three_payments:
  "report (fixedClock (Date 2023 11 5 UTC)) threePayments =
     glyphWarning @ '' Delayed: foo'' @ newline
     @ glyphMoneyWings @ '' Today: bar'' @ newline
     @ glyphHourglass @ '' Coming Up (next 2 days): baz'' @ newline
     @ glyphMoneyBag @ '' Total 3 payments pending during the next 30 days''"
  "report (fixedClock (Date 2023 11 4 UTC)) threePayments =
     glyphMoneyWings @ '' Today: foo'' @ newline
     @ glyphHourglass @ '' Coming Up (next 2 days): bar, baz'' @ newline
     @ glyphMoneyBag @ '' Total 3 payments pending during the next 30 days''"
  by code_simp+


section \<open>Properties of the ingestion\<close>

lemma ParseDateOnly_empty: "ParseDateOnly [] = None"
  by (simp add: ParseDateOnly_def longYear_def)

text \<open>A row that has text in the columns the header resolved passes the three length checks.\<close>

lemma readRow_text:
  assumes "cellString row di = Inr desc" "cellString row pd = Inr paymentDate"
    and "dd = - 1 \<or> cellString row dd = Inr dueDate"
  shows "readRow di dd pd idx row =
     (if paymentDate \<noteq> [] then Inr None
      else if dd = - 1 then Inr (Some (NewPayment desc))
      else (case ParseDateOnly dueDate of
              None \<Rightarrow> Inl (FailedToParseDueDate dueDate)
            | Some t \<Rightarrow> Inr (Some (WithDueDate (NewPayment desc) t))))"
proof -
  have "di < int (length row)" "pd < int (length row)"
    using assms(1,2) by (auto simp: cellString_def split: if_splits)
  moreover have "dd < int (length row)"
    using assms(3) by (auto simp: cellString_def split: if_splits)
  moreover have "dd = - 1 \<or> (0 \<le> dd \<and> cellString row dd = Inr dueDate)"
    using assms(3) by (auto simp: cellString_def split: if_splits)
  ultimately show ?thesis
    using assms(1,2) by (auto simp: readRow_def)
qed

lemma readRow_short:
  "int (length row) \<le> di \<Longrightarrow> readRow di dd pd idx row = Inl (CannotReadDescription di idx)"
  "di < int (length row) \<Longrightarrow> int (length row) \<le> dd \<Longrightarrow>
     readRow di dd pd idx row = Inl (CannotReadDueDate dd idx)"
  "di < int (length row) \<Longrightarrow> dd < int (length row) \<Longrightarrow> int (length row) \<le> pd \<Longrightarrow>
     readRow di dd pd idx row = Inl (CannotReadPaymentDate pd idx)"
  by (simp_all add: readRow_def)

lemma readRow_due_date_error:
  "readRow di dd pd idx row = Inl (CannotReadDueDate c r) \<Longrightarrow>
     c = dd \<and> r = idx \<and> int (length row) \<le> dd"
  by (auto simp: readRow_def cellString_def
      split: if_splits sum.splits Cell.splits option.splits)

text \<open>The loop stops at the first row that fails, with the error of that row.\<close>

lemma readRows_abort:
  assumes "i < length rows"
    and "\<forall>j<i. \<exists>r. readRow di dd pd (idx + int j) (rows ! j) = Inr r"
    and "readRow di dd pd (idx + int i) (rows ! i) = Inl e"
  shows "readRows di dd pd idx rows payments = Inl e"
  using assms
proof (induction rows arbitrary: i idx payments)
  case Nil
  then show ?case by simp
next
  case (Cons row rows)
  show ?case
  proof (cases i)
    case 0
    then show ?thesis using Cons.prems by simp
  next
    case (Suc i')
    from Cons.prems(2) Suc obtain r where r: "readRow di dd pd idx row = Inr r"
      by fastforce
    have a: "i' < length rows" using Cons.prems(1) Suc by simp
    have b: "\<forall>j<i'. \<exists>r. readRow di dd pd (idx + 1 + int j) (rows ! j) = Inr r"
    proof (intro allI impI)
      fix j assume "j < i'"
      then have "Suc j < i" using Suc by simp
      with Cons.prems(2)
      have "\<exists>r. readRow di dd pd (idx + int (Suc j)) ((row # rows) ! Suc j) = Inr r"
        by blast
      then show "\<exists>r. readRow di dd pd (idx + 1 + int j) (rows ! j) = Inr r"
        by (simp add: algebra_simps)
    qed
    have c: "readRow di dd pd (idx + 1 + int i') (rows ! i') = Inl e"
      using Cons.prems(3) Suc by (simp add: algebra_simps)
    from Cons.IH [OF a b c] r show ?thesis
      by (cases r) simp_all
  qed
qed

text \<open>An error of the loop is the error of one of its rows.\<close>

lemma readRows_error:
  "readRows di dd pd idx rows payments = Inl e \<Longrightarrow>
     \<exists>i row. readRow di dd pd i row = Inl e"
proof (induction rows arbitrary: idx payments)
  case Nil
  then show ?case by simp
next
  case (Cons row rows)
  show ?case
  proof (cases "readRow di dd pd idx row")
    case (Inl e')
    then show ?thesis using Cons.prems by auto
  next
    case (Inr r)
    then show ?thesis using Cons.prems Cons.IH by (cases r) auto
  qed
qed

lemma readPayments_rows:
  assumes "scanHeader header 0 (- 1, - 1, - 1) = Inr (di, dd, pd)" "di \<noteq> - 1" "pd \<noteq> - 1"
  shows "readPayments (header # dataRows) = readRows di dd pd 0 dataRows []"
  using assms by (simp add: readPayments_def)


text \<open>
  \<^bold>\<open>C1\<close> (as amended). On a sheet with a "Due Date" column, a data row with text in the
  three columns and an empty payment-date cell has its due-date cell parsed as a date of the
  form \<^verbatim>\<open>YYYY-MM-DD\<close>: the row gives a payment with that due date when the cell parses and
  the error about the due date, with the raw value, when it does not. The empty string does
  not parse, so a row with an empty due-date cell fails; no such row gives a payment without
  a due date. In the loop the row either stops the ingestion with that error or appends the
  payment with the due date.
\<close>

theorem readRow_parses_due_cell:
  assumes "cellString row di = Inr desc"
    and "cellString row dd = Inr dueDate"
    and "cellString row pd = Inr []"
  shows "readRow di dd pd idx row =
           (case ParseDateOnly dueDate of
              None \<Rightarrow> Inl (FailedToParseDueDate dueDate)
            | Some t \<Rightarrow> Inr (Some (WithDueDate (NewPayment desc) t)))
       \<and> (dueDate = [] \<longrightarrow> readRow di dd pd idx row = Inl (FailedToParseDueDate []))
       \<and> (\<forall>p. readRow di dd pd idx row = Inr (Some p) \<longrightarrow> IsDue p)
       \<and> readRows di dd pd idx (row # rest) payments =
           (case ParseDateOnly dueDate of
              None \<Rightarrow> Inl (FailedToParseDueDate dueDate)
            | Some t \<Rightarrow>
                readRows di dd pd (idx + 1) rest (payments @ [WithDueDate (NewPayment desc) t]))"
proof -
  have "0 \<le> dd" using assms(2) by (auto simp: cellString_def split: if_splits)
  then have "dd \<noteq> - 1" by simp
  then have r: "readRow di dd pd idx row =
           (case ParseDateOnly dueDate of
              None \<Rightarrow> Inl (FailedToParseDueDate dueDate)
            | Some t \<Rightarrow> Inr (Some (WithDueDate (NewPayment desc) t)))"
    using readRow_text [OF assms(1) assms(3), of dd dueDate idx] assms(2) by simp
  then show ?thesis
    by (auto simp: ParseDateOnly_empty WithDueDate_due split: option.splits)
qed

theorem readRow_parses_due_cell_witness:
  "cellString [Str ''rent'', Str [], Str []] 0 = Inr ''rent''
   \<and> cellString [Str ''rent'', Str [], Str []] 1 = Inr []
   \<and> cellString [Str ''rent'', Str [], Str []] 2 = Inr []
   \<and> readRow 0 1 2 0 [Str ''rent'', Str [], Str []] = Inl (FailedToParseDueDate [])"
proof -
  have a: "cellString [Str ''rent'', Str [], Str []] 0 = Inr ''rent''"
    and b: "cellString [Str ''rent'', Str [], Str []] 1 = Inr []"
    and c: "cellString [Str ''rent'', Str [], Str []] 2 = Inr []"
    by (simp_all add: cellString_def)
  from readRow_parses_due_cell [OF a b c, of 0] a b c show ?thesis
    by (simp add: ParseDateOnly_empty)
qed

text \<open>
  \<^bold>\<open>C1\<close> as stated fails: the row \<open>[rent, "", ""]\<close> under the header
  \<open>[Description, Due Date, Payment Date]\<close> makes the ingestion fail, and no payment that
  carries only the description is returned.
\<close>

theorem empty_due_cell_fails:
  "readPayments [sheetHeader, [Str ''rent'', Str [], Str []]] = Inl (FailedToParseDueDate [])
   \<and> readPayments [sheetHeader, [Str ''rent'', Str [], Str []]] \<noteq> Inr [NewPayment ''rent'']"
  by code_simp

text \<open>On a sheet without a "Due Date" column the same row gives the payment.\<close>

lemma no_due_date_column:
  "readPayments [[Str ''Description'', Str ''Payment Date''], [Str ''rent'', Str []]]
     = Inr [NewPayment ''rent'']"
  by code_simp


text \<open>
  \<^bold>\<open>C5\<close> (as amended). When the header resolves the columns and the data rows before row \<open>i\<close>
  are read without an error, a row \<open>i\<close> that is too short for the description column, for the
  due-date column of a sheet that has one, or for the payment-date column (tested in this
  order) stops the ingestion with the error that names the column and the index \<open>i\<close> of the
  row among the data rows. Only a sheet without a "Due Date" column never fails with the
  error about the due-date column.
\<close>

theorem short_row_aborts_ingestion:
  assumes "scanHeader header 0 (- 1, - 1, - 1) = Inr (di, dd, pd)" "di \<noteq> - 1" "pd \<noteq> - 1"
    and "i < length dataRows"
    and "\<forall>j<i. \<exists>r. readRow di dd pd (int j) (dataRows ! j) = Inr r"
  shows "(int (length (dataRows ! i)) \<le> di \<longrightarrow>
            readPayments (header # dataRows) = Inl (CannotReadDescription di (int i)))
       \<and> (di < int (length (dataRows ! i)) \<and> int (length (dataRows ! i)) \<le> dd \<longrightarrow>
            readPayments (header # dataRows) = Inl (CannotReadDueDate dd (int i)))
       \<and> (di < int (length (dataRows ! i)) \<and> dd < int (length (dataRows ! i))
            \<and> int (length (dataRows ! i)) \<le> pd \<longrightarrow>
            readPayments (header # dataRows) = Inl (CannotReadPaymentDate pd (int i)))
       \<and> (dd = - 1 \<longrightarrow> (\<forall>c r. readPayments (header # dataRows) \<noteq> Inl (CannotReadDueDate c r)))"
proof -
  have rp: "readPayments (header # dataRows) = readRows di dd pd 0 dataRows []"
    using assms(1-3) by (rule readPayments_rows)
  have ok: "\<forall>j<i. \<exists>r. readRow di dd pd (0 + int j) (dataRows ! j) = Inr r"
    using assms(5) by simp
  have stop: "readRows di dd pd 0 dataRows [] = Inl e"
    if "readRow di dd pd (0 + int i) (dataRows ! i) = Inl e" for e
    using assms(4) ok that by (rule readRows_abort)
  have "dd = - 1 \<longrightarrow> (\<forall>c r. readRows di dd pd 0 dataRows [] \<noteq> Inl (CannotReadDueDate c r))"
  proof (intro impI allI notI)
    fix c r
    assume "dd = - 1" and "readRows di dd pd 0 dataRows [] = Inl (CannotReadDueDate c r)"
    then obtain k row where "readRow di (- 1) pd k row = Inl (CannotReadDueDate c r)"
      using readRows_error by blast
    then show False using readRow_due_date_error [of di "- 1" pd k row c r] by simp
  qed
  then show ?thesis
    using stop
      readRow_short [where row = "dataRows ! i" and di = di and dd = dd and pd = pd
        and idx = "0 + int i"]
    by (simp add: rp)
qed

theorem short_row_aborts_ingestion_witness:
  "scanHeader [Str ''Description'', Str ''Payment Date'', Str ''Due Date''] 0 (- 1, - 1, - 1)
     = Inr (0, 2, 1)
   \<and> (0::int) \<noteq> - 1 \<and> (1::int) \<noteq> - 1
   \<and> 1 < length [[Str ''rent'', Str ''2023-11-01'', Str ''2023-11-01''], [Str ''power'', Str []]]
   \<and> readRow 0 2 1 0 [Str ''rent'', Str ''2023-11-01'', Str ''2023-11-01''] = Inr None
   \<and> readPayments
       [[Str ''Description'', Str ''Payment Date'', Str ''Due Date''],
        [Str ''rent'', Str ''2023-11-01'', Str ''2023-11-01''],
        [Str ''power'', Str []]] = Inl (CannotReadDueDate 2 1)"
proof -
  define rows where
    "rows = [[Str ''rent'', Str ''2023-11-01'', Str ''2023-11-01''], [Str ''power'', Str []]]"
  have h: "scanHeader [Str ''Description'', Str ''Payment Date'', Str ''Due Date''] 0
             (- 1, - 1, - 1) = Inr (0, 2, 1)"
    by simp
  have n: "(0::int) \<noteq> - 1" "(1::int) \<noteq> - 1" by simp_all
  have l: "1 < length rows" by (simp add: rows_def)
  have r0: "readRow 0 2 1 0 [Str ''rent'', Str ''2023-11-01'', Str ''2023-11-01''] = Inr None"
    by (simp add: readRow_def cellString_def)
  then have p: "\<forall>j<1. \<exists>r. readRow 0 2 1 (int j) (rows ! j) = Inr r"
    by (simp add: rows_def)
  have s: "(0::int) < int (length (rows ! 1)) \<and> int (length (rows ! 1)) \<le> 2"
    by (simp add: rows_def)
  from short_row_aborts_ingestion [OF h n l p] s
  have "readPayments ([Str ''Description'', Str ''Payment Date'', Str ''Due Date''] # rows)
          = Inl (CannotReadDueDate 2 1)"
    by simp
  with h n l r0 show ?thesis by (simp add: rows_def)
qed

text \<open>
  \<^bold>\<open>C5\<close> as stated fails: the optional due-date column is the last one, the row lacks its
  cell, and the ingestion stops.
\<close>

theorem short_row_optional_column_aborts:
  "readPayments
     [[Str ''Description'', Str ''Payment Date'', Str ''Due Date''], [Str ''rent'', Str []]]
     = Inl (CannotReadDueDate 2 0)"
  by code_simp


text \<open>
  \<^bold>\<open>C8\<close>. A data row whose payment-date cell is a text that is not empty gives no payment
  and no error about its due date, whatever its due-date cell holds. When the row has text
  in the description column and, on a sheet with a due-date column, in that column, the row
  is skipped: the loop goes on with the next row and the payments collected so far.
\<close>

theorem settled_row_is_dropped:
  assumes "cellString row pd = Inr paymentDate" and "paymentDate \<noteq> []"
  shows "(cellString row di = Inr desc \<and> (dd = - 1 \<or> cellString row dd = Inr dueDate) \<longrightarrow>
            readRow di dd pd idx row = Inr None
          \<and> readRows di dd pd idx (row # rest) payments =
              readRows di dd pd (idx + 1) rest payments)
       \<and> (\<forall>p. readRow di dd pd idx row \<noteq> Inr (Some p))
       \<and> (\<forall>v. readRow di dd pd idx row \<noteq> Inl (FailedToParseDueDate v))"
proof -
  have "cellString row di = Inr desc \<and> (dd = - 1 \<or> cellString row dd = Inr dueDate) \<longrightarrow>
            readRow di dd pd idx row = Inr None"
    using readRow_text [of row di desc pd paymentDate dd dueDate idx] assms by auto
  moreover have "\<forall>p. readRow di dd pd idx row \<noteq> Inr (Some p)"
    using assms by (auto simp: readRow_def split: if_splits sum.splits option.splits)
  moreover have "\<forall>v. readRow di dd pd idx row \<noteq> Inl (FailedToParseDueDate v)"
    using assms
    by (auto simp: readRow_def cellString_def
        split: if_splits sum.splits option.splits Cell.splits)
  ultimately show ?thesis by simp
qed

theorem settled_row_is_dropped_witness:
  "cellString [Str ''rent'', Str ''not-a-date'', Str ''2023-11-01''] 2 = Inr ''2023-11-01''
   \<and> ''2023-11-01'' \<noteq> []
   \<and> cellString [Str ''rent'', Str ''not-a-date'', Str ''2023-11-01''] 0 = Inr ''rent''
   \<and> cellString [Str ''rent'', Str ''not-a-date'', Str ''2023-11-01''] 1 = Inr ''not-a-date''
   \<and> readRow 0 1 2 0 [Str ''rent'', Str ''not-a-date'', Str ''2023-11-01''] = Inr None
   \<and> readRows 0 1 2 0 [[Str ''rent'', Str ''not-a-date'', Str ''2023-11-01'']] [] = Inr []"
proof -
  have a: "cellString [Str ''rent'', Str ''not-a-date'', Str ''2023-11-01''] 2
             = Inr ''2023-11-01''"
    and c: "cellString [Str ''rent'', Str ''not-a-date'', Str ''2023-11-01''] 0 = Inr ''rent''"
    and d: "cellString [Str ''rent'', Str ''not-a-date'', Str ''2023-11-01''] 1
             = Inr ''not-a-date''"
    by (simp_all add: cellString_def)
  have b: "''2023-11-01'' \<noteq> []" by simp
  from settled_row_is_dropped [OF a b, of 0 "''rent''" 1 "''not-a-date''" 0 "[]" "[]"] c d
  have "readRow 0 1 2 0 [Str ''rent'', Str ''not-a-date'', Str ''2023-11-01''] = Inr None
      \<and> readRows 0 1 2 0 [[Str ''rent'', Str ''not-a-date'', Str ''2023-11-01'']] [] = Inr []"
    by simp
  with a b c d show ?thesis by simp
qed

text \<open>A settled row with a malformed due date between two pending rows.\<close>

lemma settled_row_between_pending_rows:
  "readPayments
     [sheetHeader,
      [Str ''foo'', Str ''2023-11-04'', Str []],
      [Str ''rent'', Str ''not-a-date'', Str ''2023-11-01''],
      [Str ''bar'', Str ''2023-11-05'', Str []]]
   = Inr [WithDueDate (NewPayment ''foo'') (Date 2023 11 4 UTC),
          WithDueDate (NewPayment ''bar'') (Date 2023 11 5 UTC)]"
  by code_simp

end
